theory Spec2Isabelle
  imports Main "HOL-Library.Word"
begin

section \<open>Skyhub server: the ingestion pipeline of skyhub\_server.go\<close>

text \<open>
  The Go program downloads a manifest of image URLs, downloads and decodes every image,
  resizes each one to three sizes, saves the resized images to the file system and
  upserts one document per saved file into a MongoDB collection.

  The functions of the source are embedded as HOL functions. Go's \<open>error\<close> return
  values are values of the type \<open>error\<close>; a function returning \<open>(T, error)\<close>
  becomes a function into \<open>'a result\<close>, whose third alternative is a run-time
  panic. The network, the JPEG codec, the resize package, the file system calls and the
  database driver are not part of the repository: their answers are the fields of an
  environment record that every function takes as its first argument.
\<close>

subsection \<open>Errors and results\<close>

datatype error =
    ErrorsNew string  \<comment> \<open>\<open>errors.New(msg)\<close>\<close>
  | SyntaxError  \<comment> \<open>\<open>encoding/json\<close>: the body is not valid JSON\<close>
  | UnmarshalTypeError  \<comment> \<open>\<open>encoding/json\<close>: a JSON value does not fit the Go type\<close>
  | LibraryError string  \<comment> \<open>any error of \<open>net/http\<close>, \<open>io\<close>, \<open>os\<close>, \<open>image/jpeg\<close>, \<open>mgo\<close>\<close>

datatype panic =
    SliceBoundsOutOfRange  \<comment> \<open>\<open>s[lo:hi]\<close> with \<open>lo > hi\<close> or \<open>hi > len(s)\<close>\<close>
  | IndexOutOfRange  \<comment> \<open>\<open>xs[i]\<close> with \<open>i \<ge> len(xs)\<close>\<close>

datatype 'a result = Ok 'a | Err error | Panic panic

subsection \<open>The data types of the source\<close>

text \<open>
  \<open>uint\<close> is taken at 64 bits. \<open>image.Image\<close> is an interface type: a value is
  \<open>nil\<close> (\<open>None\<close>) or an image.
\<close>

record ImageSize =
  width :: "64 word"
  height :: "64 word"

type_synonym 'i Image = "'i option"

record 'i ImageInfo =
  img :: "'i Image"
  name :: string

record Url =
  Url :: string

record SkyhubResponse =
  Images :: "Url list"

record MongoDocument =
  Name :: string
  Url :: string

definition smallSize :: ImageSize where
  "smallSize = \<lparr>width = 320, height = 240\<rparr>"

definition mediumSize :: ImageSize where
  "mediumSize = \<lparr>width = 384, height = 288\<rparr>"

definition largeSize :: ImageSize where
  "largeSize = \<lparr>width = 640, height = 480\<rparr>"

definition filepathPrefix :: string where
  "filepathPrefix = ''/home/edufgf/Desktop/B2W/skyhub/''"

definition DatabaseAddr :: string where
  "DatabaseAddr = ''127.0.0.1:27017''"

definition ServerAddr :: string where
  "ServerAddr = ''localhost:7366''"

definition EndpointAddr :: string where
  "EndpointAddr = ''http://54.152.221.29/images.json''"

subsection \<open>Strings: \<open>strings.LastIndex\<close>, slicing, \<open>strconv.Itoa\<close>\<close>

text \<open>
  \<open>strings.LastIndex(s, substr)\<close> is the index of the last instance of \<open>substr\<close> in
  \<open>s\<close>, or \<open>-1\<close> if there is none. The search tries the start positions from
  \<open>len(s) - len(substr)\<close> down to \<open>0\<close>. Go strings are byte sequences, as
  \<open>string\<close> is here; Go's \<open>int\<close> is \<open>int\<close> (an index never leaves 63 bits).
\<close>

fun LastIndex_from :: "string \<Rightarrow> string \<Rightarrow> nat \<Rightarrow> int" where
  "LastIndex_from s substr 0 = (if take (length substr) s = substr then 0 else - 1)"
| "LastIndex_from s substr (Suc i) =
     (if take (length substr) (drop (Suc i) s) = substr then int (Suc i)
      else LastIndex_from s substr i)"

definition LastIndex :: "string \<Rightarrow> string \<Rightarrow> int" where
  "LastIndex s substr =
     (if length s < length substr then - 1
      else LastIndex_from s substr (length s - length substr))"

text \<open>
  The slice expression \<open>s[lo:hi]\<close> panics unless \<open>0 \<le> lo \<le> hi \<le> len(s)\<close>.
\<close>

definition slice :: "string \<Rightarrow> int \<Rightarrow> int \<Rightarrow> string result" where
  "slice s lo hi =
     (if 0 \<le> lo \<and> lo \<le> hi \<and> hi \<le> int (length s)
      then Ok (take (nat (hi - lo)) (drop (nat lo) s))
      else Panic SliceBoundsOutOfRange)"

subsection \<open>\<open>nameFromUrl\<close>\<close>

text \<open>
  \<^verbatim>\<open>leftIndex := strings.LastIndex(imgurl, "/")+1\<close>,
  \<^verbatim>\<open>rightIndex := strings.LastIndex(imgurl, ".")\<close>, the test
  \<^verbatim>\<open>leftIndex == -1 || rightIndex == -1\<close> and the slice
  \<^verbatim>\<open>imgurl[leftIndex:rightIndex]\<close>.
\<close>

definition nameFromUrl :: "string \<Rightarrow> string result" where
  "nameFromUrl imgurl =
     (let leftIndex = LastIndex imgurl ''/'' + 1;
          rightIndex = LastIndex imgurl ''.''
      in if leftIndex = - 1 \<or> rightIndex = - 1
         then Err (ErrorsNew ''Can't parse name from URL.'')
         else slice imgurl leftIndex rightIndex)"

text \<open>
  \<open>strconv.Itoa(i)\<close> is the decimal representation of \<open>i\<close>, with a leading
  \<open>-\<close> for a negative number. The conversion \<open>int(u)\<close> of a \<open>uint\<close> keeps the
  bits and reads them as a signed number (\<open>sint\<close>).
\<close>

definition digit :: "nat \<Rightarrow> char" where
  "digit d = ''0123456789'' ! d"

fun decimal :: "nat \<Rightarrow> string" where
  "decimal n = (if n < 10 then [digit n] else decimal (n div 10) @ [digit (n mod 10)])"

definition Itoa :: "int \<Rightarrow> string" where
  "Itoa i = (if i < 0 then ''-'' @ decimal (nat (- i)) else decimal (nat i))"

subsection \<open>The environment\<close>

text \<open>
  A JSON text, once parsed. The grammar itself (the scanner of \<open>encoding/json\<close>) is
  the field \<open>json_parse\<close> of the environment: \<open>None\<close> for a text that is not
  valid JSON. Member names and strings are the unquoted byte strings.
\<close>

datatype json =
    JNull
  | JBool bool
  | JNumber string
  | JString string
  | JArray "json list"
  | JObject "(string \<times> json) list"

text \<open>
  The answers of the world outside the repository during one run. \<open>'r\<close> is a HTTP
  response with its body, \<open>'i\<close> an image. A function that returns only an
  \<open>error\<close> answers \<open>None\<close> for \<open>nil\<close>. During one run a call is answered
  according to its arguments alone; two runs may have two environments.
\<close>

record ('r, 'i) env =
  http_Get :: "string \<Rightarrow> error + 'r"
  ioutil_ReadAll :: "'r \<Rightarrow> error + string"
  json_parse :: "string \<Rightarrow> json option"
  json_repeated :: "(string \<times> json) list \<Rightarrow> error + SkyhubResponse"
  jpeg_Decode :: "'r \<Rightarrow> error + 'i Image"
  resize_Resize :: "64 word \<Rightarrow> 64 word \<Rightarrow> 'i Image \<Rightarrow> 'i Image"
  os_Create :: "string \<Rightarrow> error option"
  jpeg_Encode :: "string \<Rightarrow> 'i Image \<Rightarrow> error option"
  mgo_Dial :: "string \<Rightarrow> error option"
  mgo_Upsert :: "string \<Rightarrow> MongoDocument \<Rightarrow> error option"

text \<open>
  What the run changes: the files under the image folder and the documents of the
  collection \<open>B2W/skyhub\<close>, in their natural order. A file that \<open>os.Create\<close> has
  created or truncated and \<open>jpeg.Encode\<close> has not finished is \<open>Partial\<close>.
\<close>

datatype 'i fileContent = Partial | Encoded "'i Image"

record 'i state =
  fs :: "string \<rightharpoonup> 'i fileContent"
  db :: "MongoDocument list"

subsection \<open>\<open>json.Unmarshal\<close> into a \<open>SkyhubResponse\<close>\<close>

text \<open>
  The behaviour of \<open>encoding/json\<close> that \<open>consumeEndpoint\<close> relies on, from the
  package documentation: an invalid text is a \<open>SyntaxError\<close>; a member is matched to
  a struct field by name, ignoring case (\<open>s\<close> and \<open>k\<close> also match U+017F and
  U+212A); members that match no field are skipped; \<open>null\<close> leaves a struct or a
  string as it is and makes a slice \<open>nil\<close>; a JSON value of the wrong kind for its
  target is an \<open>UnmarshalTypeError\<close>, and the first one is what \<open>Unmarshal\<close>
  returns. A \<open>nil\<close> slice and an empty one are both \<open>[]\<close>.

  An object that carries several members for the one field \<open>Images\<close> decodes the later
  arrays into the elements left by the earlier ones, which depends on the capacity
  the package gave the slice: that case is left to the environment (\<open>json_repeated\<close>).
\<close>

definition to_lower :: "char \<Rightarrow> char" where
  "to_lower c =
     (let n = (of_char c :: nat) in if 65 \<le> n \<and> n \<le> 90 then char_of (n + 32) else c)"

fun foldName :: "string \<Rightarrow> string" where
  "foldName (a # b # c # cs) =
     (if a = CHR 0xE2 \<and> b = CHR 0x84 \<and> c = CHR 0xAA then CHR ''k'' # foldName cs
      else if a = CHR 0xC5 \<and> b = CHR 0xBF then CHR ''s'' # foldName (c # cs)
      else to_lower a # foldName (b # c # cs))"
| "foldName [a, b] =
     (if a = CHR 0xC5 \<and> b = CHR 0xBF then ''s'' else [to_lower a, to_lower b])"
| "foldName [a] = [to_lower a]"
| "foldName [] = []"

fun decode_Url_members :: "(string \<times> json) list \<Rightarrow> Url \<Rightarrow> error + Url" where
  "decode_Url_members [] u = Inr u"
| "decode_Url_members ((k, v) # kvs) u =
     (if foldName k = foldName ''Url''
      then (case v of
              JString s \<Rightarrow> decode_Url_members kvs (u\<lparr>Url.Url := s\<rparr>)
            | JNull \<Rightarrow> decode_Url_members kvs u
            | _ \<Rightarrow> Inl UnmarshalTypeError)
      else decode_Url_members kvs u)"

definition decode_Url :: "json \<Rightarrow> error + Url" where
  "decode_Url j =
     (case j of
        JNull \<Rightarrow> Inr \<lparr>Url.Url = []\<rparr>
      | JObject kvs \<Rightarrow> decode_Url_members kvs \<lparr>Url.Url = []\<rparr>
      | _ \<Rightarrow> Inl UnmarshalTypeError)"

fun decode_elems :: "json list \<Rightarrow> error + Url list" where
  "decode_elems [] = Inr []"
| "decode_elems (j # js) =
     (case decode_Url j of
        Inl err \<Rightarrow> Inl err
      | Inr u \<Rightarrow> (case decode_elems js of Inl err \<Rightarrow> Inl err | Inr us \<Rightarrow> Inr (u # us)))"

definition decode_Images :: "json \<Rightarrow> error + SkyhubResponse" where
  "decode_Images v =
     (case v of
        JNull \<Rightarrow> Inr \<lparr>Images = []\<rparr>
      | JArray els \<Rightarrow>
          (case decode_elems els of Inl err \<Rightarrow> Inl err | Inr us \<Rightarrow> Inr \<lparr>Images = us\<rparr>)
      | _ \<Rightarrow> Inl UnmarshalTypeError)"

definition decode_SkyhubResponse :: "('r, 'i) env \<Rightarrow> json \<Rightarrow> error + SkyhubResponse" where
  "decode_SkyhubResponse e j =
     (case j of
        JNull \<Rightarrow> Inr \<lparr>Images = []\<rparr>
      | JObject kvs \<Rightarrow>
          (case filter (\<lambda>(k, v). foldName k = foldName ''Images'') kvs of
             [] \<Rightarrow> Inr \<lparr>Images = []\<rparr>
           | [(k, v)] \<Rightarrow> decode_Images v
           | _ \<Rightarrow> json_repeated e kvs)
      | _ \<Rightarrow> Inl UnmarshalTypeError)"

definition json_Unmarshal :: "('r, 'i) env \<Rightarrow> string \<Rightarrow> error + SkyhubResponse" where
  "json_Unmarshal e body =
     (case json_parse e body of
        None \<Rightarrow> Inl SyntaxError
      | Some j \<Rightarrow> decode_SkyhubResponse e j)"

subsection \<open>\<open>consumeEndpoint\<close>\<close>

definition consumeEndpoint :: "('r, 'i) env \<Rightarrow> string \<Rightarrow> Url list result" where
  "consumeEndpoint e endpoint =
     (case http_Get e endpoint of
        Inl err \<Rightarrow> Err err
      | Inr resp \<Rightarrow>
          (case ioutil_ReadAll e resp of
             Inl err \<Rightarrow> Err err
           | Inr body \<Rightarrow>
               (case json_Unmarshal e body of
                  Inl err \<Rightarrow> Err err
                | Inr skyresp \<Rightarrow> Ok (Images skyresp))))"

subsection \<open>\<open>getJpegImgs\<close>\<close>

text \<open>
  \<^verbatim>\<open>images := make([]ImageInfo, len(imagesUrl))\<close> is a slice of zero values; the
  \<open>range\<close> loop visits the URLs in order with their index \<open>i\<close> and assigns
  \<open>images[i].img\<close> and \<open>images[i].name\<close>. The first error is returned with a
  \<open>nil\<close> slice; a panic of \<open>nameFromUrl\<close> is not recovered. An index outside the
  slice would panic.
\<close>

fun getJpegImgs_loop ::
  "('r, 'i) env \<Rightarrow> Url list \<Rightarrow> nat \<Rightarrow> 'i ImageInfo list \<Rightarrow> 'i ImageInfo list result" where
  "getJpegImgs_loop e [] i images = Ok images"
| "getJpegImgs_loop e (u # us) i images =
     (let imgurl = Url.Url u in
      case http_Get e imgurl of
        Inl err \<Rightarrow> Err err
      | Inr resp \<Rightarrow>
          (case jpeg_Decode e resp of
             Inl err \<Rightarrow> Err err
           | Inr im \<Rightarrow>
               if length images \<le> i then Panic IndexOutOfRange
               else
                 (let images1 = images[i := (images ! i)\<lparr>img := im\<rparr>] in
                  case nameFromUrl imgurl of
                    Err err \<Rightarrow> Err err
                  | Panic p \<Rightarrow> Panic p
                  | Ok nm \<Rightarrow>
                      getJpegImgs_loop e us (Suc i)
                        (images1[i := (images1 ! i)\<lparr>name := nm\<rparr>]))))"

definition getJpegImgs :: "('r, 'i) env \<Rightarrow> Url list \<Rightarrow> 'i ImageInfo list result" where
  "getJpegImgs e imagesUrl =
     getJpegImgs_loop e imagesUrl 0
       (replicate (length imagesUrl) \<lparr>img = None, name = []\<rparr>)"

subsection \<open>Resizing, saving, upserting\<close>

definition resizeImg :: "('r, 'i) env \<Rightarrow> 'i Image \<Rightarrow> ImageSize \<Rightarrow> 'i Image" where
  "resizeImg e im newsize = resize_Resize e (width newsize) (height newsize) im"

text \<open>
  \<open>os.Create\<close> creates the file or truncates it; \<open>jpeg.Encode\<close> then writes it. A
  failed \<open>os.Create\<close> leaves the file system as it was.
\<close>

definition saveImgToFile ::
  "('r, 'i) env \<Rightarrow> 'i Image \<Rightarrow> string \<Rightarrow> 'i state \<Rightarrow> error option \<times> 'i state" where
  "saveImgToFile e im filepath s =
     (case os_Create e filepath of
        Some err \<Rightarrow> (Some err, s)
      | None \<Rightarrow>
          (let s1 = s\<lparr>fs := (fs s)(filepath \<mapsto> Partial)\<rparr> in
           case jpeg_Encode e filepath im of
             Some err \<Rightarrow> (Some err, s1)
           | None \<Rightarrow> (None, s1\<lparr>fs := (fs s1)(filepath \<mapsto> Encoded im)\<rparr>)))"

text \<open>
  \<open>db.Upsert(selector, doc)\<close> with the selector \<open>{Name: nm}\<close>: the first document
  whose \<open>Name\<close> is \<open>nm\<close> is replaced by \<open>doc\<close>; if there is none, \<open>doc\<close> is
  inserted. A failed upsert leaves the collection as it was.
\<close>

fun upsert_doc :: "string \<Rightarrow> MongoDocument \<Rightarrow> MongoDocument list \<Rightarrow> MongoDocument list" where
  "upsert_doc nm doc [] = [doc]"
| "upsert_doc nm doc (d # ds) = (if Name d = nm then doc # ds else d # upsert_doc nm doc ds)"

definition Upsert ::
  "('r, 'i) env \<Rightarrow> string \<Rightarrow> MongoDocument \<Rightarrow> 'i state \<Rightarrow> error option \<times> 'i state" where
  "Upsert e nm doc s =
     (case mgo_Upsert e nm doc of
        Some err \<Rightarrow> (Some err, s)
      | None \<Rightarrow> (None, s\<lparr>db := upsert_doc nm doc (db s)\<rparr>))"

text \<open>
  The name of the resized image:
  \<^verbatim>\<open>imgInfo.name + "_" + strconv.Itoa(int(size.width)) + "x" + strconv.Itoa(int(size.height)) + ".jpg"\<close>,
  and the document \<^verbatim>\<open>MongoDocument{Name: name, Url: "http://" + ServerAddr + "/skyhub/" + name}\<close>.
\<close>

definition storedName :: "'i ImageInfo \<Rightarrow> ImageSize \<Rightarrow> string" where
  "storedName imgInfo sz =
     name imgInfo @ ''_'' @ Itoa (sint (width sz)) @ ''x'' @ Itoa (sint (height sz)) @ ''.jpg''"

definition document :: "string \<Rightarrow> MongoDocument" where
  "document nm = \<lparr>Name = nm, Url = ''http://'' @ ServerAddr @ ''/skyhub/'' @ nm\<rparr>"

definition resizeAndStoreToDB ::
  "('r, 'i) env \<Rightarrow> 'i ImageInfo \<Rightarrow> ImageSize \<Rightarrow> 'i state \<Rightarrow> error option \<times> 'i state" where
  "resizeAndStoreToDB e imgInfo sz s =
     (let im = resizeImg e (img imgInfo) sz;
          nm = storedName imgInfo sz
      in case saveImgToFile e im (filepathPrefix @ nm) s of
           (Some err, s1) \<Rightarrow> (Some err, s1)
         | (None, s1) \<Rightarrow>
             (let doc = document nm
              in case Upsert e (Name doc) doc s1 of
                   (Some err, s2) \<Rightarrow> (Some err, s2)
                 | (None, s2) \<Rightarrow> (None, s2)))"

fun resizeAndStoreImgsToDB ::
  "('r, 'i) env \<Rightarrow> 'i ImageInfo list \<Rightarrow> 'i state \<Rightarrow> error option \<times> 'i state" where
  "resizeAndStoreImgsToDB e [] s = (None, s)"
| "resizeAndStoreImgsToDB e (imgInfo # images) s =
     (case resizeAndStoreToDB e imgInfo smallSize s of
        (Some err, s1) \<Rightarrow> (Some err, s1)
      | (None, s1) \<Rightarrow>
          (case resizeAndStoreToDB e imgInfo mediumSize s1 of
             (Some err, s2) \<Rightarrow> (Some err, s2)
           | (None, s2) \<Rightarrow>
               (case resizeAndStoreToDB e imgInfo largeSize s2 of
                  (Some err, s3) \<Rightarrow> (Some err, s3)
                | (None, s3) \<Rightarrow> resizeAndStoreImgsToDB e images s3)))"

subsection \<open>\<open>main\<close>, up to the point where the server starts to listen\<close>

text \<open>
  \<open>log.Fatal\<close> ends the process with the error; an unrecovered panic ends it too.
\<close>

datatype exit = LogFatal error | Crash panic | Listening

definition main :: "('r, 'i) env \<Rightarrow> 'i state \<Rightarrow> exit \<times> 'i state" where
  "main e s =
     (case consumeEndpoint e EndpointAddr of
        Err err \<Rightarrow> (LogFatal err, s)
      | Panic p \<Rightarrow> (Crash p, s)
      | Ok imagesUrl \<Rightarrow>
          (case getJpegImgs e imagesUrl of
             Err err \<Rightarrow> (LogFatal err, s)
           | Panic p \<Rightarrow> (Crash p, s)
           | Ok images \<Rightarrow>
               (case mgo_Dial e DatabaseAddr of
                  Some err \<Rightarrow> (LogFatal err, s)
                | None \<Rightarrow>
                    (case resizeAndStoreImgsToDB e images s of
                       (Some err, s') \<Rightarrow> (LogFatal err, s')
                     | (None, s') \<Rightarrow> (Listening, s')))))"

subsection \<open>Notions used by the properties\<close>


text \<open>The three sizes of \<open>resizeAndStoreImgsToDB\<close>, in the order of its calls.\<close>

definition sizes :: "ImageSize list" where
  "sizes = [smallSize, mediumSize, largeSize]"

text \<open>The documents that a run upserts for a list of images, in the order of the upserts.\<close>

definition documents :: "'i ImageInfo list \<Rightarrow> MongoDocument list" where
  "documents images =
     concat (map (\<lambda>imgInfo. map (\<lambda>sz. document (storedName imgInfo sz)) sizes) images)"




text \<open>
  The first document of a given name is the one that the pipeline writes for that name.
\<close>

definition indexed :: "string \<Rightarrow> MongoDocument list \<Rightarrow> bool" where
  "indexed nm ds = (find (\<lambda>d. Name d = nm) ds = Some (document nm))"

text \<open>
  The JSON value of the expected shape \<^verbatim>\<open>{"Images": [{"Url": u}, ...]}\<close> for a list
  of URLs.
\<close>

definition manifest_json :: "string list \<Rightarrow> json" where
  "manifest_json us =
     JObject [(''Images'', JArray (map (\<lambda>u. JObject [(''Url'', JString u)]) us))]"

text \<open>
  The shape that the specification expects of the manifest,
  \<^verbatim>\<open>{ "Images": [ { "Url": string }, ... ] }\<close>: an object whose one member \<open>Images\<close>
  is an array of objects, each with the one member \<open>Url\<close>, a string.
\<close>

fun is_Url_object :: "json \<Rightarrow> bool" where
  "is_Url_object (JObject [(k, JString u)]) = (k = ''Url'')"
| "is_Url_object _ = False"

fun expected_shape :: "json \<Rightarrow> bool" where
  "expected_shape (JObject [(k, JArray els)]) = (k = ''Images'' \<and> list_all is_Url_object els)"
| "expected_shape _ = False"

text \<open>
  The JSON values of the wrong kind for a struct (neither \<open>null\<close> nor an object), for a
  slice (neither \<open>null\<close> nor an array) and for a string (neither \<open>null\<close> nor a
  string); and the array elements of the wrong kind for a \<open>Url\<close>: a value of the
  wrong kind for a struct, or an object with a member for the field \<open>Url\<close> of the
  wrong kind for a string.
\<close>

definition not_object :: "json \<Rightarrow> bool" where
  "not_object j = (case j of JNull \<Rightarrow> False | JObject kvs \<Rightarrow> False | _ \<Rightarrow> True)"

definition not_array :: "json \<Rightarrow> bool" where
  "not_array j = (case j of JNull \<Rightarrow> False | JArray els \<Rightarrow> False | _ \<Rightarrow> True)"

definition not_string :: "json \<Rightarrow> bool" where
  "not_string j = (case j of JNull \<Rightarrow> False | JString x \<Rightarrow> False | _ \<Rightarrow> True)"

definition bad_element :: "json \<Rightarrow> bool" where
  "bad_element el =
     (case el of
        JNull \<Rightarrow> False
      | JObject kvs \<Rightarrow> list_ex (\<lambda>(k, v). foldName k = foldName ''Url'' \<and> not_string v) kvs
      | _ \<Rightarrow> True)"

text \<open>The members of an object that are matched to the field \<open>Images\<close>.\<close>

definition Images_members :: "(string \<times> json) list \<Rightarrow> (string \<times> json) list" where
  "Images_members kvs = filter (\<lambda>(k, v). foldName k = foldName ''Images'') kvs"

text \<open>
  An environment for examples. A response is the URL it was requested from and an image
  is the URL it was decoded from; every download succeeds; the manifest endpoint answers
  \<open>body\<close>, which parses to \<open>parsed\<close>; the URLs in \<open>bad\<close> do not decode as JPEG;
  the file system and the database accept every write.
\<close>

definition example_env :: "string \<Rightarrow> json option \<Rightarrow> string list \<Rightarrow> (string, string) env" where
  "example_env body parsed bad =
     \<lparr>http_Get = (\<lambda>u. Inr u),
      ioutil_ReadAll = (\<lambda>r. Inr body),
      json_parse = (\<lambda>b. if b = body then parsed else None),
      json_repeated = (\<lambda>kvs. Inl UnmarshalTypeError),
      jpeg_Decode = (\<lambda>r. if r \<in> set bad then Inl (LibraryError ''invalid JPEG format'')
                          else Inr (Some r)),
      resize_Resize = (\<lambda>w h im. im),
      os_Create = (\<lambda>p. None),
      jpeg_Encode = (\<lambda>p im. None),
      mgo_Dial = (\<lambda>a. None),
      mgo_Upsert = (\<lambda>nm d. None)\<rparr>"

definition empty_state :: "string state" where
  "empty_state = \<lparr>fs = Map.empty, db = []\<rparr>"

section \<open>Properties\<close>

subsection \<open>\<open>strings.LastIndex\<close> for a one-byte separator\<close>

lemma take1_drop: "(take (Suc 0) (drop j s) = [c]) = (j < length s \<and> s ! j = c)"
proof (cases "j < length s")
  case True
  then have "drop j s = s ! j # drop (Suc j) s" by (simp add: Cons_nth_drop_Suc)
  then show ?thesis using True by simp
next
  case False
  then show ?thesis by simp
qed

lemma LastIndex_from_char:
  "(LastIndex_from s [c] i = - 1 \<and> (\<forall>j\<le>i. j < length s \<longrightarrow> s ! j \<noteq> c)) \<or>
   (\<exists>k. LastIndex_from s [c] i = int k \<and> k \<le> i \<and> k < length s \<and> s ! k = c \<and>
        (\<forall>j. k < j \<and> j \<le> i \<and> j < length s \<longrightarrow> s ! j \<noteq> c))"
proof (induction i)
  case 0
  show ?case
    using take1_drop [of 0 s c] by auto
next
  case (Suc i)
  show ?case
  proof (cases "Suc i < length s \<and> s ! Suc i = c")
    case True
    then have "LastIndex_from s [c] (Suc i) = int (Suc i)"
      using take1_drop [of "Suc i" s c] by simp
    with True show ?thesis
      by (intro disjI2 exI [of _ "Suc i"]) auto
  next
    case False
    then have eq: "LastIndex_from s [c] (Suc i) = LastIndex_from s [c] i"
      using take1_drop [of "Suc i" s c] by auto
    from Suc.IH show ?thesis
    proof
      assume a: "LastIndex_from s [c] i = - 1 \<and> (\<forall>j\<le>i. j < length s \<longrightarrow> s ! j \<noteq> c)"
      have "\<forall>j\<le>Suc i. j < length s \<longrightarrow> s ! j \<noteq> c"
        using a False by (auto simp: le_Suc_eq)
      with a eq show ?thesis by simp
    next
      assume "\<exists>k. LastIndex_from s [c] i = int k \<and> k \<le> i \<and> k < length s \<and> s ! k = c \<and>
        (\<forall>j. k < j \<and> j \<le> i \<and> j < length s \<longrightarrow> s ! j \<noteq> c)"
      then obtain k where k: "LastIndex_from s [c] i = int k" "k \<le> i" "k < length s" "s ! k = c"
        "\<forall>j. k < j \<and> j \<le> i \<and> j < length s \<longrightarrow> s ! j \<noteq> c" by blast
      have "\<forall>j. k < j \<and> j \<le> Suc i \<and> j < length s \<longrightarrow> s ! j \<noteq> c"
        using k(5) False by (auto simp: le_Suc_eq)
      with k eq show ?thesis by auto
    qed
  qed
qed

lemma LastIndex_char:
  "(LastIndex s [c] = - 1 \<and> c \<notin> set s) \<or>
   (\<exists>k. LastIndex s [c] = int k \<and> k < length s \<and> s ! k = c \<and>
        (\<forall>j. k < j \<and> j < length s \<longrightarrow> s ! j \<noteq> c))"
proof (cases s)
  case Nil
  then show ?thesis by (simp add: LastIndex_def)
next
  case (Cons a as)
  then have L: "LastIndex s [c] = LastIndex_from s [c] (length s - 1)"
    by (simp add: LastIndex_def)
  from LastIndex_from_char [of s c "length s - 1"] show ?thesis
  proof
    assume a: "LastIndex_from s [c] (length s - 1) = - 1 \<and>
      (\<forall>j\<le>length s - 1. j < length s \<longrightarrow> s ! j \<noteq> c)"
    then have "\<forall>j<length s. s ! j \<noteq> c" by auto
    then have "c \<notin> set s" by (auto simp: in_set_conv_nth)
    with a L show ?thesis by simp
  next
    assume "\<exists>k. LastIndex_from s [c] (length s - 1) = int k \<and> k \<le> length s - 1 \<and>
      k < length s \<and> s ! k = c \<and>
      (\<forall>j. k < j \<and> j \<le> length s - 1 \<and> j < length s \<longrightarrow> s ! j \<noteq> c)"
    then obtain k where k: "LastIndex_from s [c] (length s - 1) = int k" "k < length s" "s ! k = c"
      "\<forall>j. k < j \<and> j \<le> length s - 1 \<and> j < length s \<longrightarrow> s ! j \<noteq> c" by blast
    have "\<forall>j. k < j \<and> j < length s \<longrightarrow> s ! j \<noteq> c"
      using k(4) by auto
    with k L show ?thesis by auto
  qed
qed

lemma LastIndex_absent: "c \<notin> set s \<Longrightarrow> LastIndex s [c] = - 1"
  using LastIndex_char [of s c] by (auto simp: in_set_conv_nth)

lemma LastIndex_last:
  assumes "c \<notin> set q"
  shows "LastIndex (p @ c # q) [c] = int (length p)"
proof -
  let ?s = "p @ c # q"
  have "c \<in> set ?s" by simp
  with LastIndex_char [of ?s c] obtain k where
    k: "LastIndex ?s [c] = int k" "k < length ?s" "?s ! k = c"
       "\<forall>j. k < j \<and> j < length ?s \<longrightarrow> ?s ! j \<noteq> c" by auto
  have "\<not> k < length p"
  proof
    assume "k < length p"
    with k(4) have "?s ! length p \<noteq> c"
      by (auto dest: spec [of _ "length p"])
    then show False by simp
  qed
  moreover have "\<not> length p < k"
  proof
    assume lt: "length p < k"
    then have "?s ! k = q ! (k - Suc (length p))"
      by (simp add: nth_append nth_Cons')
    moreover have "k - Suc (length p) < length q" using lt k(2) by simp
    ultimately have "c \<in> set q" using k(3) by (metis nth_mem)
    with assms show False by simp
  qed
  ultimately have "k = length p" by simp
  with k(1) show ?thesis by simp
qed

lemma LastIndex_present_bounds:
  assumes "c \<in> set p" "c \<notin> set q"
  shows "0 \<le> LastIndex (p @ q) [c]" "LastIndex (p @ q) [c] < int (length p)"
proof -
  from assms(1) obtain p1 p2 where sp: "p = p1 @ c # p2" "c \<notin> set p2"
    by (meson split_list_last)
  then have "LastIndex (p @ q) [c] = int (length p1)"
    using LastIndex_last [of c "p2 @ q" p1] assms(2) by simp
  then show "0 \<le> LastIndex (p @ q) [c]" "LastIndex (p @ q) [c] < int (length p)"
    using sp by simp_all
qed

lemma LastIndex_lower:
  "int (length p) \<le> LastIndex (p @ c # q) [c]"
proof -
  let ?s = "p @ c # q"
  have "c \<in> set ?s" by simp
  with LastIndex_char [of ?s c] obtain k where
    k: "LastIndex ?s [c] = int k" "k < length ?s" "?s ! k = c"
       "\<forall>j. k < j \<and> j < length ?s \<longrightarrow> ?s ! j \<noteq> c" by auto
  have "\<not> k < length p"
  proof
    assume "k < length p"
    with k(4) have "?s ! length p \<noteq> c"
      by (auto dest: spec [of _ "length p"])
    then show False by simp
  qed
  with k(1) show ?thesis by simp
qed

subsection \<open>Name derivation\<close>

text \<open>
  Claim C1. The claim: for every URL in which \<open>/\<close> or \<open>.\<close> is absent, \<open>nameFromUrl\<close>
  returns an error. The code adds 1 to the index of the last \<open>/\<close> before it compares
  it with \<open>-1\<close>, so the test for a missing \<open>/\<close> never fires: for the URL
  \<open>b737_3.jpg\<close>, which has no \<open>/\<close>, \<open>nameFromUrl\<close> returns no error but the name
  \<open>b737_3\<close>.
\<close>

theorem nameFromUrl_without_slash:
  "CHR ''/'' \<notin> set ''b737_3.jpg'' \<and> nameFromUrl ''b737_3.jpg'' = Ok ''b737_3''"
  by (simp add: nameFromUrl_def LastIndex_def slice_def)

text \<open>
  Claim C7, as amended. For every URL in which a \<open>.\<close> occurs after the last \<open>/\<close>,
  that is a URL \<open>p/n.ext\<close> where \<open>n\<close> and \<open>ext\<close> hold no \<open>/\<close> and \<open>ext\<close> holds no
  \<open>.\<close>, the derived name is \<open>n\<close>: the substring after the last \<open>/\<close> and before the
  last \<open>.\<close>.
\<close>

theorem nameFromUrl_name:
  assumes "CHR ''/'' \<notin> set n" "CHR ''/'' \<notin> set ext" "CHR ''.'' \<notin> set ext"
  shows "nameFromUrl (p @ ''/'' @ n @ ''.'' @ ext) = Ok n"
proof -
  let ?u = "p @ ''/'' @ n @ ''.'' @ ext"
  have l: "LastIndex ?u ''/'' + 1 = int (Suc (length p))"
    using LastIndex_last [of "CHR ''/''" "n @ ''.'' @ ext" p] assms by simp
  have r: "LastIndex ?u ''.'' = int (Suc (length p) + length n)"
    using LastIndex_last [of "CHR ''.''" ext "p @ ''/'' @ n"] assms by simp
  have n: "nat (1 + int (length p)) = Suc (length p)" by simp
  show ?thesis
    unfolding nameFromUrl_def Let_def l r by (simp add: slice_def n)
qed

theorem nameFromUrl_name_witness:
  "nameFromUrl ''http://host/images/b737_3.jpg'' = Ok ''b737_3''"
  using nameFromUrl_name [of "''b737_3''" "''jpg''" "''http://host/images''"] by simp

text \<open>
  Claim C7, as stated, fails: the URL \<open>http://host.com/noextension\<close> contains a \<open>/\<close>
  (at index 5) followed later by a \<open>.\<close> (at index 11), and \<open>nameFromUrl\<close> returns no
  name for it.
\<close>

theorem nameFromUrl_slash_then_dot_counterexample:
  "''http://host.com/noextension'' ! 5 = CHR ''/'' \<and>
   ''http://host.com/noextension'' ! 11 = CHR ''.'' \<and>
   nameFromUrl ''http://host.com/noextension'' = Panic SliceBoundsOutOfRange"
  by (simp add: nameFromUrl_def LastIndex_def slice_def)

text \<open>
  Claim C9. For every URL whose last \<open>.\<close> occurs strictly before its last \<open>/\<close>, that
  is a URL \<open>p/c\<close> where \<open>p\<close> holds a \<open>.\<close> and \<open>c\<close> holds none, \<open>nameFromUrl\<close>
  returns neither an error nor a name: the slice \<open>imgurl[leftIndex:rightIndex]\<close> has
  \<open>rightIndex < leftIndex\<close> and panics.
\<close>

theorem nameFromUrl_panic:
  assumes "CHR ''.'' \<in> set p" "CHR ''.'' \<notin> set c"
  shows "nameFromUrl (p @ ''/'' @ c) = Panic SliceBoundsOutOfRange"
proof -
  let ?u = "p @ ''/'' @ c"
  have l: "int (length p) \<le> LastIndex ?u ''/''"
    using LastIndex_lower [of p "CHR ''/''" c] by simp
  have "CHR ''.'' \<notin> set (''/'' @ c)" using assms(2) by simp
  then have r: "0 \<le> LastIndex ?u ''.''" "LastIndex ?u ''.'' < int (length p)"
    using LastIndex_present_bounds [of "CHR ''.''" p "''/'' @ c"] assms(1) by simp_all
  show ?thesis
    unfolding nameFromUrl_def Let_def using l r by (simp add: slice_def)
qed

theorem nameFromUrl_panic_witness:
  "nameFromUrl ''http://host.com/noextension'' = Panic SliceBoundsOutOfRange"
  using nameFromUrl_panic [of "''http://host.com''" "''noextension''"] by simp

subsection \<open>The name of a stored image\<close>

lemma sint_small:
  assumes "unat (w :: 64 word) < 2 ^ 63"
  shows "sint w = int (unat w)"
proof -
  have "int (unat w) < int (2 ^ 63)" using assms by (simp only: of_nat_less_iff)
  then have u: "uint w < 2 ^ 63" by (simp only: uint_nat of_nat_power of_nat_numeral)
  have n: "- (2 ^ 63) \<le> uint w"
  proof -
    have "- (2 ^ 63) \<le> (0::int)" by simp
    also have "0 \<le> uint w" by simp
    finally show ?thesis .
  qed
  have "signed_take_bit 63 (uint w) = uint w"
    using n u by (rule signed_take_bit_int_eq_self)
  moreover have "sint w = signed_take_bit 63 (uint w)"
    by (simp only: sint_uint) simp
  ultimately show ?thesis by (simp only: uint_nat)
qed

lemma decimal_unfold:
  "decimal n = (if n < 10 then [digit n] else decimal (n div 10) @ [digit (n mod 10)])"
  by simp

declare decimal.simps [simp del]

text \<open>
  Claim C8. For every logical name and every size whose width and height are below
  \<open>2^63\<close> (the three sizes of the program are), the name of the stored image is the
  logical name, \<open>_\<close>, the width in decimal, \<open>x\<close>, the height in decimal and
  \<open>.jpg\<close>; for the logical name \<open>b737_3\<close> and the size 320 by 240 it is
  \<open>b737_3_320x240.jpg\<close>.
\<close>

theorem storedName_construction:
  assumes "unat (width sz) < 2 ^ 63" "unat (height sz) < 2 ^ 63"
  shows "storedName imgInfo sz =
    name imgInfo @ ''_'' @ decimal (unat (width sz)) @ ''x'' @ decimal (unat (height sz)) @ ''.jpg''"
  using assms by (simp add: storedName_def Itoa_def sint_small)

theorem storedName_construction_witness:
  "storedName \<lparr>img = None :: nat option, name = ''b737_3''\<rparr> \<lparr>width = 320, height = 240\<rparr>
     = ''b737_3_320x240.jpg''"
  using storedName_construction
    [of "\<lparr>width = 320, height = 240\<rparr>" "\<lparr>img = None :: nat option, name = ''b737_3''\<rparr>"]
  by (simp add: decimal_unfold digit_def)

subsection \<open>\<open>getJpegImgs\<close>\<close>

lemma getJpegImgs_loop_Ok:
  assumes "getJpegImgs_loop e us i images = Ok out" "i + length us \<le> length images"
  shows "length out = length images \<and>
         (\<forall>k<i. out ! k = images ! k) \<and>
         (\<forall>k<length us. \<exists>resp. http_Get e (Url.Url (us ! k)) = Inr resp \<and>
              jpeg_Decode e resp = Inr (img (out ! (i + k))) \<and>
              nameFromUrl (Url.Url (us ! k)) = Ok (name (out ! (i + k))))"
  using assms
proof (induction us arbitrary: i images)
  case Nil
  then show ?case by simp
next
  case (Cons u us)
  from Cons.prems(1) obtain resp im nm where
    g: "http_Get e (Url.Url u) = Inr resp" and d: "jpeg_Decode e resp = Inr im"
    and n: "nameFromUrl (Url.Url u) = Ok nm"
    and rest: "getJpegImgs_loop e us (Suc i)
       ((images[i := (images ! i)\<lparr>img := im\<rparr>])[i := ((images[i := (images ! i)\<lparr>img := im\<rparr>]) ! i)\<lparr>name := nm\<rparr>]) = Ok out"
    by (auto simp: Let_def split: sum.splits result.splits if_splits)
  let ?images' = "(images[i := (images ! i)\<lparr>img := im\<rparr>])[i := ((images[i := (images ! i)\<lparr>img := im\<rparr>]) ! i)\<lparr>name := nm\<rparr>]"
  have li: "i < length images" using Cons.prems(2) by simp
  have len: "Suc i + length us \<le> length ?images'" using Cons.prems(2) by simp
  note IH = Cons.IH [OF rest len]
  have at_i: "out ! i = ?images' ! i" using IH by simp
  have img_i: "img (out ! i) = im" and name_i: "name (out ! i) = nm"
    using at_i li by simp_all
  have l: "length out = length images" using IH by simp
  have below: "\<forall>k<i. out ! k = images ! k"
  proof (intro allI impI)
    fix k assume "k < i"
    then have "out ! k = ?images' ! k" using IH by simp
    then show "out ! k = images ! k" using \<open>k < i\<close> by simp
  qed
  have elems: "\<forall>k<length (u # us). \<exists>resp. http_Get e (Url.Url ((u # us) ! k)) = Inr resp \<and>
              jpeg_Decode e resp = Inr (img (out ! (i + k))) \<and>
              nameFromUrl (Url.Url ((u # us) ! k)) = Ok (name (out ! (i + k)))"
  proof (intro allI impI)
    fix k assume k: "k < length (u # us)"
    show "\<exists>resp. http_Get e (Url.Url ((u # us) ! k)) = Inr resp \<and>
              jpeg_Decode e resp = Inr (img (out ! (i + k))) \<and>
              nameFromUrl (Url.Url ((u # us) ! k)) = Ok (name (out ! (i + k)))"
    proof (cases k)
      case 0
      then show ?thesis using g d n img_i name_i by simp
    next
      case (Suc k')
      then have "k' < length us" using k by simp
      with IH obtain resp' where "http_Get e (Url.Url (us ! k')) = Inr resp' \<and>
              jpeg_Decode e resp' = Inr (img (out ! (Suc i + k'))) \<and>
              nameFromUrl (Url.Url (us ! k')) = Ok (name (out ! (Suc i + k')))" by blast
      then show ?thesis using Suc by auto
    qed
  qed
  from l below elems show ?case by blast
qed


lemma getJpegImgs_Ok:
  assumes "getJpegImgs e imagesUrl = Ok images"
  shows "length images = length imagesUrl \<and>
         (\<forall>i<length imagesUrl. \<exists>resp.
              http_Get e (Url.Url (imagesUrl ! i)) = Inr resp \<and>
              jpeg_Decode e resp = Inr (img (images ! i)) \<and>
              nameFromUrl (Url.Url (imagesUrl ! i)) = Ok (name (images ! i)))"
  using getJpegImgs_loop_Ok
    [of e imagesUrl 0 "replicate (length imagesUrl) \<lparr>img = None, name = []\<rparr>" images] assms
  by (simp add: getJpegImgs_def)

text \<open>
  Claim C10. Whenever \<open>getJpegImgs\<close> succeeds on a list of URLs, the slice it returns
  has the length of the input, and its element at position \<open>i\<close> holds the image
  decoded from the response to the \<open>i\<close>-th URL and the name derived from that URL.
\<close>

theorem getJpegImgs_elements:
  assumes "getJpegImgs e imagesUrl = Ok images"
  shows "length images = length imagesUrl \<and>
         (\<forall>i<length imagesUrl. \<exists>resp.
              http_Get e (Url.Url (imagesUrl ! i)) = Inr resp \<and>
              jpeg_Decode e resp = Inr (img (images ! i)) \<and>
              nameFromUrl (Url.Url (imagesUrl ! i)) = Ok (name (images ! i)))"
  using assms by (rule getJpegImgs_Ok)

lemma nameFromUrl_examples:
  "nameFromUrl ''http://host/images/a.jpg'' = Ok ''a''"
  "nameFromUrl ''http://host/b.png'' = Ok ''b''"
  by (simp_all add: nameFromUrl_def LastIndex_def slice_def)

lemma example_getJpegImgs_ab:
  "getJpegImgs (example_env body parsed [])
     [\<lparr>Url.Url = ''http://host/images/a.jpg''\<rparr>, \<lparr>Url.Url = ''http://host/b.png''\<rparr>]
   = Ok [\<lparr>img = Some ''http://host/images/a.jpg'', name = ''a''\<rparr>,
         \<lparr>img = Some ''http://host/b.png'', name = ''b''\<rparr>]"
  by (simp add: getJpegImgs_def example_env_def nameFromUrl_examples)

theorem getJpegImgs_elements_witness:
  "length [\<lparr>img = Some ''http://host/images/a.jpg'', name = ''a''\<rparr>,
           \<lparr>img = Some ''http://host/b.png'', name = ''b''\<rparr>] = (2::nat) \<and>
   (\<exists>resp. http_Get (example_env [] None []) ''http://host/b.png'' = Inr resp \<and>
      jpeg_Decode (example_env [] None []) resp = Inr (Some ''http://host/b.png'') \<and>
      nameFromUrl ''http://host/b.png'' = Ok ''b'')"
  using getJpegImgs_elements [OF example_getJpegImgs_ab [of "[]" None]] by auto

subsection \<open>Storing before indexing\<close>

lemma saveImgToFile_db: "saveImgToFile e im p s = (r, s') \<Longrightarrow> db s' = db s"
  by (auto simp: saveImgToFile_def Let_def split: option.splits)

lemma saveImgToFile_fs: "saveImgToFile e im p s = (r, s') \<Longrightarrow> fs s q \<noteq> None \<Longrightarrow> fs s' q \<noteq> None"
  by (auto simp: saveImgToFile_def Let_def split: option.splits)

lemma saveImgToFile_None:
  "saveImgToFile e im p s = (None, s') \<Longrightarrow> fs s' p = Some (Encoded im)"
  by (auto simp: saveImgToFile_def Let_def split: option.splits)


lemma Upsert_Some: "Upsert e nm d s = (Some err, s') \<Longrightarrow> s' = s"
  by (auto simp: Upsert_def split: option.splits)

lemma Upsert_None: "Upsert e nm d s = (None, s') \<Longrightarrow> db s' = upsert_doc nm d (db s)"
  by (auto simp: Upsert_def split: option.splits)



text \<open>The three ways a call of \<open>resizeAndStoreToDB\<close> can end.\<close>

lemma resizeAndStoreToDB_cases:
  assumes "resizeAndStoreToDB e imgInfo sz s = (r, s')"
  obtains
    (save_failed) err where
      "saveImgToFile e (resizeImg e (img imgInfo) sz) (filepathPrefix @ storedName imgInfo sz) s
         = (Some err, s')" "r = Some err"
  | (upsert_failed) err s1 where
      "saveImgToFile e (resizeImg e (img imgInfo) sz) (filepathPrefix @ storedName imgInfo sz) s
         = (None, s1)"
      "Upsert e (storedName imgInfo sz) (document (storedName imgInfo sz)) s1 = (Some err, s')"
      "r = Some err"
  | (stored) s1 where
      "saveImgToFile e (resizeImg e (img imgInfo) sz) (filepathPrefix @ storedName imgInfo sz) s
         = (None, s1)"
      "Upsert e (storedName imgInfo sz) (document (storedName imgInfo sz)) s1 = (None, s')"
      "r = None"
  using assms
  by (auto simp: resizeAndStoreToDB_def Let_def document_def split: prod.splits option.splits)















subsection \<open>The manifest\<close>

lemma foldName_Url [simp]: "foldName ''Url'' = ''url''"
  by code_simp

lemma foldName_Images [simp]: "foldName ''Images'' = ''images''"
  by code_simp

lemma decode_empty_object: "decode_SkyhubResponse e (JObject []) = Inr \<lparr>Images = []\<rparr>"
  by (simp add: decode_SkyhubResponse_def)

lemma decode_null: "decode_SkyhubResponse e JNull = Inr \<lparr>Images = []\<rparr>"
  by (simp add: decode_SkyhubResponse_def)

lemma decode_Url_object: "decode_Url (JObject [(''Url'', JString u)]) = Inr \<lparr>Url.Url = u\<rparr>"
  by (simp add: decode_Url_def)

lemma decode_elems_manifest:
  "decode_elems (map (\<lambda>u. JObject [(''Url'', JString u)]) us) = Inr (map (\<lambda>u. \<lparr>Url.Url = u\<rparr>) us)"
  by (induction us) (simp_all add: decode_Url_object)

lemma decode_manifest_json:
  "decode_SkyhubResponse e (manifest_json us) = Inr \<lparr>Images = map (\<lambda>u. \<lparr>Url.Url = u\<rparr>) us\<rparr>"
  by (simp add: decode_SkyhubResponse_def manifest_json_def decode_Images_def decode_elems_manifest)

lemma decode_not_object: "not_object j \<Longrightarrow> decode_SkyhubResponse e j = Inl UnmarshalTypeError"
  by (cases j) (simp_all add: decode_SkyhubResponse_def not_object_def)

lemma decode_Ok_kind:
  "decode_SkyhubResponse e j = Inr r \<Longrightarrow> \<not> not_object j"
  by (cases j) (simp_all add: decode_SkyhubResponse_def not_object_def)

lemma decode_no_member:
  "Images_members kvs = [] \<Longrightarrow> decode_SkyhubResponse e (JObject kvs) = Inr \<lparr>Images = []\<rparr>"
  by (simp add: decode_SkyhubResponse_def Images_members_def)

lemma decode_one_member:
  "Images_members kvs = [(k, v)] \<Longrightarrow> decode_SkyhubResponse e (JObject kvs) = decode_Images v"
  by (simp add: decode_SkyhubResponse_def Images_members_def)

lemma decode_Images_not_array: "not_array v \<Longrightarrow> decode_Images v = Inl UnmarshalTypeError"
  by (cases v) (simp_all add: decode_Images_def not_array_def)

lemma decode_Url_members_error:
  "decode_Url_members kvs u = Inl err \<Longrightarrow> err = UnmarshalTypeError"
  by (induction kvs u rule: decode_Url_members.induct)
     (auto simp del: foldName.simps split: if_splits json.splits)

lemma decode_Url_members_bad:
  assumes "list_ex (\<lambda>(k, v). foldName k = foldName ''Url'' \<and> not_string v) kvs"
  shows "decode_Url_members kvs u = Inl UnmarshalTypeError"
  using assms
proof (induction kvs arbitrary: u)
  case Nil
  then show ?case by simp
next
  case (Cons kv kvs)
  obtain k v where kv: "kv = (k, v)" by (cases kv)
  show ?case
  proof (cases "foldName k = foldName ''Url'' \<and> not_string v")
    case True
    then show ?thesis
      unfolding kv by (cases v) (simp_all add: not_string_def del: foldName.simps)
  next
    case False
    then have "list_ex (\<lambda>(k, v). foldName k = foldName ''Url'' \<and> not_string v) kvs"
      using Cons.prems kv by (auto simp del: foldName.simps)
    then have ih: "decode_Url_members kvs u' = Inl UnmarshalTypeError" for u'
      using Cons.IH by simp
    show ?thesis
      unfolding kv by (cases v) (simp_all add: ih del: foldName.simps)
  qed
qed

lemma decode_Url_error: "decode_Url el = Inl err \<Longrightarrow> err = UnmarshalTypeError"
  by (cases el) (auto simp: decode_Url_def dest: decode_Url_members_error)

lemma decode_Url_bad: "bad_element el \<Longrightarrow> decode_Url el = Inl UnmarshalTypeError"
  by (cases el) (simp_all add: decode_Url_def bad_element_def decode_Url_members_bad del: foldName.simps)

lemma decode_elems_error: "decode_elems els = Inl err \<Longrightarrow> err = UnmarshalTypeError"
  by (induction els arbitrary: err) (auto split: sum.splits dest: decode_Url_error)

lemma decode_elems_bad: "list_ex bad_element els \<Longrightarrow> decode_elems els = Inl UnmarshalTypeError"
proof (induction els)
  case Nil
  then show ?case by simp
next
  case (Cons el els)
  show ?case
  proof (cases "decode_Url el")
    case (Inl err)
    then show ?thesis using decode_Url_error [OF Inl] by simp
  next
    case (Inr u)
    then have "\<not> bad_element el" using decode_Url_bad [of el] by auto
    then have "decode_elems els = Inl UnmarshalTypeError" using Cons by simp
    then show ?thesis using Inr by simp
  qed
qed

lemma decode_Images_bad:
  "list_ex bad_element els \<Longrightarrow> decode_Images (JArray els) = Inl UnmarshalTypeError"
  by (simp add: decode_Images_def decode_elems_bad)

lemma is_Url_object_eq: "is_Url_object el \<Longrightarrow> \<exists>u. el = JObject [(''Url'', JString u)]"
  by (cases el rule: is_Url_object.cases) simp_all

lemma list_all_is_Url_object:
  "list_all is_Url_object els \<Longrightarrow> \<exists>us. els = map (\<lambda>u. JObject [(''Url'', JString u)]) us"
proof (induction els)
  case Nil
  then show ?case by simp
next
  case (Cons el els)
  then obtain u us where "el = JObject [(''Url'', JString u)]"
    "els = map (\<lambda>u. JObject [(''Url'', JString u)]) us"
    using is_Url_object_eq [of el] by auto
  then have "el # els = map (\<lambda>u. JObject [(''Url'', JString u)]) (u # us)" by simp
  then show ?case by (rule exI)
qed

lemma expected_shape_eq: "expected_shape j \<Longrightarrow> \<exists>us. j = manifest_json us"
  by (cases j rule: expected_shape.cases)
     (auto simp: manifest_json_def dest: list_all_is_Url_object)

lemma manifest_json_inj: "manifest_json us = manifest_json vs \<Longrightarrow> us = vs"
proof -
  assume "manifest_json us = manifest_json vs"
  then have "map (\<lambda>u. JObject [(''Url'', JString u)]) us = map (\<lambda>u. JObject [(''Url'', JString u)]) vs"
    by (simp add: manifest_json_def)
  moreover have "inj (\<lambda>u. JObject [(''Url'', JString u)])" by (simp add: inj_def)
  ultimately show "us = vs" by (rule map_injective)
qed

lemma expected_shape_manifest_json: "expected_shape (manifest_json us)"
  by (simp add: manifest_json_def list_all_iff)

lemma consumeEndpoint_Ok:
  assumes "consumeEndpoint e endpoint = Ok urls"
  shows "\<exists>resp body j. http_Get e endpoint = Inr resp \<and> ioutil_ReadAll e resp = Inr body \<and>
           json_parse e body = Some j \<and> \<not> not_object j"
proof -
  from assms obtain resp body r where
    g: "http_Get e endpoint = Inr resp" and b: "ioutil_ReadAll e resp = Inr body" and
    u: "json_Unmarshal e body = Inr r"
    by (auto simp: consumeEndpoint_def split: sum.splits)
  from u obtain j where j: "json_parse e body = Some j" "decode_SkyhubResponse e j = Inr r"
    by (auto simp: json_Unmarshal_def split: option.splits)
  from decode_Ok_kind [OF j(2)] g b j(1) show ?thesis by blast
qed

text \<open>The result of \<open>consumeEndpoint\<close> once the body has been read and parsed.\<close>

lemma consumeEndpoint_parsed:
  assumes "http_Get e endpoint = Inr resp" "ioutil_ReadAll e resp = Inr body"
    "json_parse e body = Some j"
  shows "consumeEndpoint e endpoint =
     (case decode_SkyhubResponse e j of Inl err \<Rightarrow> Err err | Inr r \<Rightarrow> Ok (Images r))"
  using assms by (simp add: consumeEndpoint_def json_Unmarshal_def)

text \<open>
  Claim C5, as amended. \<open>consumeEndpoint\<close> fails with the error of the retrieval or of
  the reading of the body when one of them fails, with a \<open>SyntaxError\<close> when the body
  is not valid JSON, and with an \<open>UnmarshalTypeError\<close> when the body is a JSON value
  other than an object or \<open>null\<close>, or an object with one member for \<open>Images\<close> whose
  value is neither an array nor \<open>null\<close>, or is an array with an element of the wrong
  kind for a \<open>Url\<close>. For every body of the expected shape it returns the references
  in order. Every object without a member for \<open>Images\<close>, and the body \<open>null\<close>, is
  accepted: the result is the empty sequence. Whenever a sequence is returned, the
  retrieval and the reading have succeeded and the body is valid JSON for an object or
  \<open>null\<close>.
\<close>

theorem consumeEndpoint_results:
  "(http_Get e endpoint = Inl err \<longrightarrow> consumeEndpoint e endpoint = Err err) \<and>
   (http_Get e endpoint = Inr resp \<and> ioutil_ReadAll e resp = Inl err
      \<longrightarrow> consumeEndpoint e endpoint = Err err) \<and>
   (http_Get e endpoint = Inr resp \<and> ioutil_ReadAll e resp = Inr body \<and> json_parse e body = None
      \<longrightarrow> consumeEndpoint e endpoint = Err SyntaxError) \<and>
   (http_Get e endpoint = Inr resp \<and> ioutil_ReadAll e resp = Inr body \<and>
    json_parse e body = Some j \<and> not_object j
      \<longrightarrow> consumeEndpoint e endpoint = Err UnmarshalTypeError) \<and>
   (http_Get e endpoint = Inr resp \<and> ioutil_ReadAll e resp = Inr body \<and>
    json_parse e body = Some (JObject kvs) \<and> Images_members kvs = [(k, v)] \<and> not_array v
      \<longrightarrow> consumeEndpoint e endpoint = Err UnmarshalTypeError) \<and>
   (http_Get e endpoint = Inr resp \<and> ioutil_ReadAll e resp = Inr body \<and>
    json_parse e body = Some (JObject kvs) \<and> Images_members kvs = [(k, JArray els)] \<and>
    list_ex bad_element els
      \<longrightarrow> consumeEndpoint e endpoint = Err UnmarshalTypeError) \<and>
   (http_Get e endpoint = Inr resp \<and> ioutil_ReadAll e resp = Inr body \<and>
    json_parse e body = Some j \<and> expected_shape j
      \<longrightarrow> (\<exists>us. j = manifest_json us \<and>
            consumeEndpoint e endpoint = Ok (map (\<lambda>u. \<lparr>Url.Url = u\<rparr>) us))) \<and>
   (http_Get e endpoint = Inr resp \<and> ioutil_ReadAll e resp = Inr body \<and>
    (json_parse e body = Some JNull \<or>
     json_parse e body = Some (JObject kvs) \<and> Images_members kvs = [])
      \<longrightarrow> consumeEndpoint e endpoint = Ok []) \<and>
   (consumeEndpoint e endpoint = Ok urls
      \<longrightarrow> (\<exists>resp body j. http_Get e endpoint = Inr resp \<and> ioutil_ReadAll e resp = Inr body \<and>
             json_parse e body = Some j \<and> \<not> not_object j))"
proof -
  have c1: "http_Get e endpoint = Inl err \<longrightarrow> consumeEndpoint e endpoint = Err err"
    by (simp add: consumeEndpoint_def)
  have c2: "http_Get e endpoint = Inr resp \<and> ioutil_ReadAll e resp = Inl err
      \<longrightarrow> consumeEndpoint e endpoint = Err err"
    by (simp add: consumeEndpoint_def)
  have c3: "http_Get e endpoint = Inr resp \<and> ioutil_ReadAll e resp = Inr body \<and>
      json_parse e body = None \<longrightarrow> consumeEndpoint e endpoint = Err SyntaxError"
    by (simp add: consumeEndpoint_def json_Unmarshal_def)
  have c4: "http_Get e endpoint = Inr resp \<and> ioutil_ReadAll e resp = Inr body \<and>
      json_parse e body = Some j \<and> not_object j
      \<longrightarrow> consumeEndpoint e endpoint = Err UnmarshalTypeError"
    by (simp add: consumeEndpoint_parsed decode_not_object)
  have c5: "http_Get e endpoint = Inr resp \<and> ioutil_ReadAll e resp = Inr body \<and>
      json_parse e body = Some (JObject kvs) \<and> Images_members kvs = [(k, v)] \<and> not_array v
      \<longrightarrow> consumeEndpoint e endpoint = Err UnmarshalTypeError"
    by (simp add: consumeEndpoint_parsed decode_one_member decode_Images_not_array)
  have c6: "http_Get e endpoint = Inr resp \<and> ioutil_ReadAll e resp = Inr body \<and>
      json_parse e body = Some (JObject kvs) \<and> Images_members kvs = [(k, JArray els)] \<and>
      list_ex bad_element els
      \<longrightarrow> consumeEndpoint e endpoint = Err UnmarshalTypeError"
    by (simp add: consumeEndpoint_parsed decode_one_member decode_Images_bad)
  have c7: "http_Get e endpoint = Inr resp \<and> ioutil_ReadAll e resp = Inr body \<and>
      json_parse e body = Some j \<and> expected_shape j
      \<longrightarrow> (\<exists>us. j = manifest_json us \<and>
            consumeEndpoint e endpoint = Ok (map (\<lambda>u. \<lparr>Url.Url = u\<rparr>) us))"
  proof
    assume a: "http_Get e endpoint = Inr resp \<and> ioutil_ReadAll e resp = Inr body \<and>
      json_parse e body = Some j \<and> expected_shape j"
    then obtain us where us: "j = manifest_json us" using expected_shape_eq by blast
    have "consumeEndpoint e endpoint = Ok (map (\<lambda>u. \<lparr>Url.Url = u\<rparr>) us)"
      using a us by (simp add: consumeEndpoint_parsed decode_manifest_json)
    with us show "\<exists>us. j = manifest_json us \<and>
            consumeEndpoint e endpoint = Ok (map (\<lambda>u. \<lparr>Url.Url = u\<rparr>) us)" by blast
  qed
  have c8: "http_Get e endpoint = Inr resp \<and> ioutil_ReadAll e resp = Inr body \<and>
      (json_parse e body = Some JNull \<or>
       json_parse e body = Some (JObject kvs) \<and> Images_members kvs = [])
      \<longrightarrow> consumeEndpoint e endpoint = Ok []"
    by (auto simp: consumeEndpoint_parsed decode_no_member decode_null)
  have c9: "consumeEndpoint e endpoint = Ok urls
      \<longrightarrow> (\<exists>resp body j. http_Get e endpoint = Inr resp \<and> ioutil_ReadAll e resp = Inr body \<and>
             json_parse e body = Some j \<and> \<not> not_object j)"
    using consumeEndpoint_Ok [of e endpoint urls] by blast
  from c1 c2 c3 c4 c5 c6 c7 c8 c9 show ?thesis by blast
qed

lemma Images_members_examples:
  "Images_members [(''error'', JString ''x'')] = []"
  "Images_members [(''images'', JNumber ''5''), (''total'', JNumber ''1'')] = [(''images'', JNumber ''5'')]"
  by code_simp+

theorem consumeEndpoint_results_witness:
  "consumeEndpoint (example_env ''{\"Images\":[{\"Url\":\"http://host/images/a.jpg\"}]}''
       (Some (manifest_json [''http://host/images/a.jpg''])) []) EndpointAddr
     = Ok [\<lparr>Url.Url = ''http://host/images/a.jpg''\<rparr>] \<and>
   consumeEndpoint (example_env ''[1, 2]'' (Some (JArray [JNumber ''1'', JNumber ''2''])) []) EndpointAddr
     = Err UnmarshalTypeError \<and>
   consumeEndpoint (example_env ''{\"Images\":'' None []) EndpointAddr = Err SyntaxError \<and>
   consumeEndpoint (example_env ''{\"error\":\"x\"}'' (Some (JObject [(''error'', JString ''x'')])) [])
       EndpointAddr = Ok [] \<and>
   consumeEndpoint (example_env ''{\"images\":5,\"total\":1}''
       (Some (JObject [(''images'', JNumber ''5''), (''total'', JNumber ''1'')])) [])
       EndpointAddr = Err UnmarshalTypeError"
proof -
  have a: "consumeEndpoint (example_env ''{\"Images\":[{\"Url\":\"http://host/images/a.jpg\"}]}''
       (Some (manifest_json [''http://host/images/a.jpg''])) []) EndpointAddr
     = Ok [\<lparr>Url.Url = ''http://host/images/a.jpg''\<rparr>]"
    using consumeEndpoint_results [of "example_env ''{\"Images\":[{\"Url\":\"http://host/images/a.jpg\"}]}''
       (Some (manifest_json [''http://host/images/a.jpg''])) []" EndpointAddr SyntaxError EndpointAddr
       "''{\"Images\":[{\"Url\":\"http://host/images/a.jpg\"}]}''" "manifest_json [''http://host/images/a.jpg'']" "[]" "[]" JNull "[]" "[]",
       THEN conjunct2, THEN conjunct2, THEN conjunct2, THEN conjunct2, THEN conjunct2, THEN conjunct2, THEN conjunct1]
    by (auto simp: example_env_def expected_shape_manifest_json dest: manifest_json_inj)
  have b: "consumeEndpoint (example_env ''[1, 2]'' (Some (JArray [JNumber ''1'', JNumber ''2''])) [])
       EndpointAddr = Err UnmarshalTypeError"
    using consumeEndpoint_results [of "example_env ''[1, 2]'' (Some (JArray [JNumber ''1'', JNumber ''2''])) []" EndpointAddr SyntaxError EndpointAddr
       "''[1, 2]''" "JArray [JNumber ''1'', JNumber ''2'']" "[]" "[]" JNull "[]" "[]",
       THEN conjunct2, THEN conjunct2, THEN conjunct2, THEN conjunct1]
    by (simp add: example_env_def not_object_def)
  have c: "consumeEndpoint (example_env ''{\"Images\":'' None []) EndpointAddr = Err SyntaxError"
    using consumeEndpoint_results [of "example_env ''{\"Images\":'' None []" EndpointAddr SyntaxError EndpointAddr
       "''{\"Images\":''" JNull "[]" "[]" JNull "[]" "[]",
       THEN conjunct2, THEN conjunct2, THEN conjunct1]
    by (simp add: example_env_def)
  have d: "consumeEndpoint (example_env ''{\"error\":\"x\"}'' (Some (JObject [(''error'', JString ''x'')])) [])
       EndpointAddr = Ok []"
    using consumeEndpoint_results [of "example_env ''{\"error\":\"x\"}'' (Some (JObject [(''error'', JString ''x'')])) []" EndpointAddr SyntaxError EndpointAddr
       "''{\"error\":\"x\"}''" JNull "[(''error'', JString ''x'')]" "[]" JNull "[]" "[]",
       THEN conjunct2, THEN conjunct2, THEN conjunct2, THEN conjunct2, THEN conjunct2, THEN conjunct2, THEN conjunct2, THEN conjunct1]
    by (simp add: example_env_def Images_members_examples)
  have f: "consumeEndpoint (example_env ''{\"images\":5,\"total\":1}''
       (Some (JObject [(''images'', JNumber ''5''), (''total'', JNumber ''1'')])) [])
       EndpointAddr = Err UnmarshalTypeError"
    using consumeEndpoint_results [of "example_env ''{\"images\":5,\"total\":1}''
       (Some (JObject [(''images'', JNumber ''5''), (''total'', JNumber ''1'')])) []" EndpointAddr SyntaxError EndpointAddr
       "''{\"images\":5,\"total\":1}''" JNull
       "[(''images'', JNumber ''5''), (''total'', JNumber ''1'')]" "''images''" "JNumber ''5''" "[]" "[]",
       THEN conjunct2, THEN conjunct2, THEN conjunct2, THEN conjunct2, THEN conjunct1]
    by (simp add: example_env_def Images_members_examples not_array_def)
  from a b c d f show ?thesis by simp
qed

text \<open>
  Claim C5, as stated, fails: the body \<^verbatim>\<open>{}\<close> is valid JSON that does not have the
  expected shape, and \<open>consumeEndpoint\<close> returns the empty sequence and no error.
\<close>

theorem consumeEndpoint_empty_object_counterexample:
  "\<not> expected_shape (JObject []) \<and>
   json_parse (example_env ''{}'' (Some (JObject [])) []) ''{}'' = Some (JObject []) \<and>
   consumeEndpoint (example_env ''{}'' (Some (JObject [])) []) EndpointAddr = Ok []"
  by (simp add: consumeEndpoint_def json_Unmarshal_def decode_empty_object example_env_def)

subsection \<open>The run\<close>





lemma Name_document [simp]: "Name (document nm) = nm"
  by (simp add: document_def)

lemma storedName_sizes:
  "storedName imgInfo smallSize = name imgInfo @ ''_320x240.jpg''"
  "storedName imgInfo mediumSize = name imgInfo @ ''_384x288.jpg''"
  "storedName imgInfo largeSize = name imgInfo @ ''_640x480.jpg''"
  by (simp_all add: storedName_def smallSize_def mediumSize_def largeSize_def Itoa_def
      decimal_unfold digit_def)

lemma resizeAndStoreToDB_db:
  assumes "resizeAndStoreToDB e imgInfo sz s = (None, s')"
  shows "db s' = upsert_doc (storedName imgInfo sz) (document (storedName imgInfo sz)) (db s)"
  using assms
proof (cases rule: resizeAndStoreToDB_cases)
  case (stored s1)
  then show ?thesis using Upsert_None [OF stored(2)] saveImgToFile_db [OF stored(1)] by simp
qed simp_all



lemma documents_Nil [simp]: "documents [] = []"
  by (simp add: documents_def)





lemma find_upsert_doc_same:
  "find (\<lambda>d. Name d = nm) (upsert_doc nm (document nm) ds) = Some (document nm)"
  by (induction ds) simp_all

lemma find_upsert_doc_other:
  "nm' \<noteq> nm \<Longrightarrow>
   find (\<lambda>d. Name d = nm') (upsert_doc nm (document nm) ds) = find (\<lambda>d. Name d = nm') ds"
  by (induction ds) simp_all

lemma indexed_upsert_doc:
  "indexed nm' ds \<Longrightarrow> indexed nm' (upsert_doc nm (document nm) ds)"
  by (cases "nm' = nm") (simp_all add: indexed_def find_upsert_doc_same find_upsert_doc_other)

lemma upsert_doc_indexed: "indexed nm ds \<Longrightarrow> upsert_doc nm (document nm) ds = ds"
  by (induction ds) (auto simp: indexed_def)

lemma resizeAndStoreToDB_keeps_indexed:
  assumes "resizeAndStoreToDB e imgInfo sz s = (r, s')" "indexed nm (db s)"
  shows "indexed nm (db s')"
  using assms(1)
proof (cases rule: resizeAndStoreToDB_cases)
  case (save_failed err)
  then show ?thesis using saveImgToFile_db [OF save_failed(1)] assms(2) by simp
next
  case (upsert_failed err s1)
  then show ?thesis
    using Upsert_Some [OF upsert_failed(2)] saveImgToFile_db [OF upsert_failed(1)] assms(2) by simp
next
  case (stored s1)
  then show ?thesis
    using Upsert_None [OF stored(2)] saveImgToFile_db [OF stored(1)] assms(2)
    by (simp add: indexed_upsert_doc)
qed

lemma resizeAndStoreToDB_makes_indexed:
  assumes "resizeAndStoreToDB e imgInfo sz s = (None, s')"
  shows "indexed (storedName imgInfo sz) (db s')"
  using resizeAndStoreToDB_db [OF assms] by (simp add: indexed_def find_upsert_doc_same)

lemma resizeAndStoreToDB_indexed_db:
  assumes "resizeAndStoreToDB e imgInfo sz s = (r, s')" "indexed (storedName imgInfo sz) (db s)"
  shows "db s' = db s"
  using assms(1)
proof (cases rule: resizeAndStoreToDB_cases)
  case (save_failed err)
  then show ?thesis using saveImgToFile_db [OF save_failed(1)] by simp
next
  case (upsert_failed err s1)
  then show ?thesis
    using Upsert_Some [OF upsert_failed(2)] saveImgToFile_db [OF upsert_failed(1)] by simp
next
  case (stored s1)
  then show ?thesis
    using Upsert_None [OF stored(2)] saveImgToFile_db [OF stored(1)] assms(2)
    by (simp add: upsert_doc_indexed)
qed

lemma resizeAndStoreImgsToDB_keeps_indexed:
  assumes "resizeAndStoreImgsToDB e images s = (r, s')" "indexed nm (db s)"
  shows "indexed nm (db s')"
  using assms
proof (induction images arbitrary: s)
  case Nil
  then show ?case by simp
next
  case (Cons i images)
  obtain r1 s1 where c1: "resizeAndStoreToDB e i smallSize s = (r1, s1)" by fastforce
  obtain r2 s2 where c2: "resizeAndStoreToDB e i mediumSize s1 = (r2, s2)" by fastforce
  obtain r3 s3 where c3: "resizeAndStoreToDB e i largeSize s2 = (r3, s3)" by fastforce
  have i1: "indexed nm (db s1)" using resizeAndStoreToDB_keeps_indexed [OF c1 Cons.prems(2)] .
  have i2: "indexed nm (db s2)" using resizeAndStoreToDB_keeps_indexed [OF c2 i1] .
  have i3: "indexed nm (db s3)" using resizeAndStoreToDB_keeps_indexed [OF c3 i2] .
  show ?case
    using Cons.prems(1) c1 c2 c3 i1 i2 i3 Cons.IH [of s3]
    by (auto split: option.splits)
qed

lemma resizeAndStoreImgsToDB_makes_indexed:
  assumes "resizeAndStoreImgsToDB e images s = (None, s')" "i \<in> set images" "sz \<in> set sizes"
  shows "indexed (storedName i sz) (db s')"
  using assms(1,2)
proof (induction images arbitrary: s)
  case Nil
  then show ?case by simp
next
  case (Cons j images)
  from Cons.prems(1) obtain s1 s2 s3 where
    c1: "resizeAndStoreToDB e j smallSize s = (None, s1)" and
    c2: "resizeAndStoreToDB e j mediumSize s1 = (None, s2)" and
    c3: "resizeAndStoreToDB e j largeSize s2 = (None, s3)" and
    rest: "resizeAndStoreImgsToDB e images s3 = (None, s')"
    by (auto split: prod.splits option.splits)
  show ?case
  proof (cases "i = j")
    case True
    have "indexed (storedName j sz) (db s3)"
    proof -
      consider "sz = smallSize" | "sz = mediumSize" | "sz = largeSize"
        using assms(3) by (auto simp: sizes_def)
      then show ?thesis
      proof cases
        case 1
        then show ?thesis
          using resizeAndStoreToDB_makes_indexed [OF c1]
            resizeAndStoreToDB_keeps_indexed [OF c2] resizeAndStoreToDB_keeps_indexed [OF c3]
          by simp
      next
        case 2
        then show ?thesis
          using resizeAndStoreToDB_makes_indexed [OF c2] resizeAndStoreToDB_keeps_indexed [OF c3]
          by simp
      next
        case 3
        then show ?thesis using resizeAndStoreToDB_makes_indexed [OF c3] by simp
      qed
    qed
    then show ?thesis
      using resizeAndStoreImgsToDB_keeps_indexed [OF rest] True by simp
  next
    case False
    then have "i \<in> set images" using Cons.prems(2) by simp
    then show ?thesis using Cons.IH [OF rest] by simp
  qed
qed

lemma resizeAndStoreImgsToDB_indexed_db:
  assumes "resizeAndStoreImgsToDB e images s = (r, s')"
    "\<forall>i\<in>set images. \<forall>sz\<in>set sizes. indexed (storedName i sz) (db s)"
  shows "db s' = db s"
  using assms
proof (induction images arbitrary: s)
  case Nil
  then show ?case by simp
next
  case (Cons i images)
  obtain r1 s1 where c1: "resizeAndStoreToDB e i smallSize s = (r1, s1)" by fastforce
  obtain r2 s2 where c2: "resizeAndStoreToDB e i mediumSize s1 = (r2, s2)" by fastforce
  obtain r3 s3 where c3: "resizeAndStoreToDB e i largeSize s2 = (r3, s3)" by fastforce
  have ix: "indexed (storedName i smallSize) (db s)" "indexed (storedName i mediumSize) (db s)"
    "indexed (storedName i largeSize) (db s)"
    using Cons.prems(2) by (simp_all add: sizes_def)
  have d1: "db s1 = db s" using resizeAndStoreToDB_indexed_db [OF c1 ix(1)] .
  have d2: "db s2 = db s" using resizeAndStoreToDB_indexed_db [OF c2] ix(2) d1 by simp
  have d3: "db s3 = db s" using resizeAndStoreToDB_indexed_db [OF c3] ix(3) d2 by simp
  have "\<forall>i\<in>set images. \<forall>sz\<in>set sizes. indexed (storedName i sz) (db s3)"
    using Cons.prems(2) d3 by simp
  then have r: "resizeAndStoreImgsToDB e images s3 = (r, s') \<Longrightarrow> db s' = db s"
    using Cons.IH [of s3] d3 by simp
  show ?case
    using Cons.prems(1) c1 c2 c3 d1 d2 d3 r
    by (auto split: option.splits)
qed

lemma storedName_name: "name i = name j \<Longrightarrow> storedName i sz = storedName j sz"
  by (simp add: storedName_def)

lemma getJpegImgs_names:
  assumes "getJpegImgs e1 imagesUrl = Ok images1" "getJpegImgs e2 imagesUrl = Ok images2"
    "j \<in> set images2"
  shows "\<exists>i\<in>set images1. name i = name j"
proof -
  from assms(3) obtain k where k: "k < length images2" "images2 ! k = j"
    by (auto simp: in_set_conv_nth)
  have l: "length images1 = length imagesUrl" "length images2 = length imagesUrl"
    using getJpegImgs_Ok [OF assms(1)] getJpegImgs_Ok [OF assms(2)] by simp_all
  have "nameFromUrl (Url.Url (imagesUrl ! k)) = Ok (name (images1 ! k))"
    using getJpegImgs_Ok [OF assms(1)] k l by auto
  moreover have "nameFromUrl (Url.Url (imagesUrl ! k)) = Ok (name (images2 ! k))"
    using getJpegImgs_Ok [OF assms(2)] k l by auto
  ultimately have "name (images1 ! k) = name j" using k by simp
  moreover have "images1 ! k \<in> set images1" using k l by simp
  ultimately show ?thesis by blast
qed

text \<open>
  Claim C4. After a run that has succeeded, a second run on the same manifest leaves the
  collection exactly as it was, whatever the environment answers during the second run
  and whether the second run succeeds or not: the same documents in the same order, so
  the same names, each with its URL unchanged, no new document and no duplicate.
\<close>

theorem second_run_keeps_index:
  assumes "main e1 s0 = (Listening, s1)"
    "consumeEndpoint e2 EndpointAddr = consumeEndpoint e1 EndpointAddr"
  shows "db (snd (main e2 s1)) = db s1"
proof -
  from assms(1) obtain imagesUrl images1 where
    m: "consumeEndpoint e1 EndpointAddr = Ok imagesUrl" and
    g1: "getJpegImgs e1 imagesUrl = Ok images1" and
    r1: "resizeAndStoreImgsToDB e1 images1 s0 = (None, s1)"
    by (auto simp: main_def split: result.splits option.splits prod.splits)
  have m2: "consumeEndpoint e2 EndpointAddr = Ok imagesUrl" using assms(2) m by simp
  show ?thesis
  proof (cases "getJpegImgs e2 imagesUrl")
    case (Ok images2)
    have ix: "\<forall>j\<in>set images2. \<forall>sz\<in>set sizes. indexed (storedName j sz) (db s1)"
    proof (intro ballI)
      fix j sz assume j: "j \<in> set images2" and sz: "sz \<in> set sizes"
      from getJpegImgs_names [OF g1 Ok j] obtain i where i: "i \<in> set images1" "name i = name j"
        by blast
      have "indexed (storedName i sz) (db s1)"
        using resizeAndStoreImgsToDB_makes_indexed [OF r1 i(1) sz] .
      then show "indexed (storedName j sz) (db s1)"
        using storedName_name [OF i(2)] by simp
    qed
    obtain r2 s2 where r2: "resizeAndStoreImgsToDB e2 images2 s1 = (r2, s2)" by fastforce
    have "db s2 = db s1" using resizeAndStoreImgsToDB_indexed_db [OF r2 ix] .
    then show ?thesis
      using m2 Ok r2 by (auto simp: main_def split: option.splits)
  next
    case (Err err)
    then show ?thesis using m2 by (simp add: main_def)
  next
    case (Panic p)
    then show ?thesis using m2 by (simp add: main_def)
  qed
qed


lemma example_consumeEndpoint:
  "consumeEndpoint (example_env body (Some (manifest_json us)) bad) endpoint
     = Ok (map (\<lambda>u. \<lparr>Url.Url = u\<rparr>) us)"
  by (simp add: consumeEndpoint_def json_Unmarshal_def example_env_def decode_manifest_json)



lemma example_resizeAndStoreToDB:
  "resizeAndStoreToDB (example_env body parsed bad) imgInfo sz s =
     (None, s\<lparr>fs := (fs s)(filepathPrefix @ storedName imgInfo sz \<mapsto> Encoded (img imgInfo)),
              db := upsert_doc (storedName imgInfo sz) (document (storedName imgInfo sz)) (db s)\<rparr>)"
  by (simp add: resizeAndStoreToDB_def saveImgToFile_def Upsert_def example_env_def resizeImg_def
      Let_def)

lemma example_mgo_Dial: "mgo_Dial (example_env body parsed bad) a = None"
  by (simp add: example_env_def)

lemma example_main_ab:
  "fst (main (example_env body
          (Some (manifest_json [''http://host/images/a.jpg'', ''http://host/b.png''])) [])
        empty_state) = Listening"
  "db (snd (main (example_env body
          (Some (manifest_json [''http://host/images/a.jpg'', ''http://host/b.png''])) [])
        empty_state))
   = [document ''a_320x240.jpg'', document ''a_384x288.jpg'', document ''a_640x480.jpg'',
      document ''b_320x240.jpg'', document ''b_384x288.jpg'', document ''b_640x480.jpg'']"
  by (simp_all add: main_def example_consumeEndpoint example_getJpegImgs_ab example_mgo_Dial
      example_resizeAndStoreToDB storedName_sizes empty_state_def)










theorem second_run_keeps_index_witness:
  "db (snd (main (example_env [] (Some (manifest_json [''http://host/images/a.jpg'', ''http://host/b.png''])) [])
     (snd (main (example_env [] (Some (manifest_json [''http://host/images/a.jpg'', ''http://host/b.png''])) [])
        empty_state))))
   = [document ''a_320x240.jpg'', document ''a_384x288.jpg'', document ''a_640x480.jpg'',
      document ''b_320x240.jpg'', document ''b_384x288.jpg'', document ''b_640x480.jpg'']"
proof -
  let ?e = "example_env [] (Some (manifest_json [''http://host/images/a.jpg'', ''http://host/b.png''])) []"
  have m: "main ?e empty_state = (Listening, snd (main ?e empty_state))"
    using example_main_ab(1) [of "[]"] by (simp add: prod_eq_iff)
  show ?thesis
    using second_run_keeps_index [OF m, of ?e] by (simp add: example_main_ab)
qed

end
